theory Spec2Isabelle
  imports Main "HOL-Library.AList"
begin

section \<open>JSON documents\<close>

text \<open>
  The inbound resource (\<open>req.object\<close>) is a schemaless JSON document. Numbers are
  restricted to integers; an object is its list of members in insertion order.
\<close>

datatype json =
    JNull
  | JBool bool
  | JNum int
  | JStr string
  | JArr "json list"
  | JObj "(string \<times> json) list"

section \<open>The object store\<close>

text \<open>
  The processor keeps a reference to the \<open>metadata\<close> object of the working copy across
  the call of a user callback, and writes through it afterwards. Objects are therefore
  kept in a store and named by their address: a value is a primitive or a reference, a
  cell holds the named properties of one object and, for an array, its elements.
  A property that is absent reads as \<open>undefined\<close>, which is \<open>None\<close> here; \<open>undefined\<close>
  is never stored.
\<close>

type_synonym addr = nat

datatype val = VNull | VBool bool | VNum int | VStr string | VRef addr

datatype cell = Cell (elems: "val list option") (props: "(string \<times> val) list")

type_synonym heap = "cell list"

datatype error = TypeError

text \<open>JavaScript truthiness, as used by \<open>metadata.annotations || {}\<close>.\<close>

fun truthy :: "val option \<Rightarrow> bool" where
  "truthy None = False"
| "truthy (Some VNull) = False"
| "truthy (Some (VBool b)) = b"
| "truthy (Some (VNum n)) = (n \<noteq> 0)"
| "truthy (Some (VStr s)) = (s \<noteq> [])"
| "truthy (Some (VRef a)) = True"

text \<open>
  \<open>v.k\<close> for the property names the processor reads (\<open>metadata\<close>, \<open>annotations\<close>):
  reading a property of \<open>undefined\<close> or \<open>null\<close> throws, a primitive has no such
  property, an object or array yields its own property of that name.
\<close>

fun get_prop :: "heap \<Rightarrow> val option \<Rightarrow> string \<Rightarrow> error + val option" where
  "get_prop h None k = Inl TypeError"
| "get_prop h (Some VNull) k = Inl TypeError"
| "get_prop h (Some (VRef a)) k =
     (if a < length h then Inr (map_of (props (h ! a)) k) else Inl TypeError)"
| "get_prop h (Some v) k = Inr None"

text \<open>
  \<open>v.k = x\<close> in strict mode (module code): assigning to a property of \<open>undefined\<close>,
  \<open>null\<close> or a primitive throws; on an object the property is overwritten in place or
  appended as the last member.
\<close>

fun set_prop :: "heap \<Rightarrow> val option \<Rightarrow> string \<Rightarrow> val \<Rightarrow> error + heap" where
  "set_prop h (Some (VRef a)) k x =
     (if a < length h
      then Inr (h[a := Cell (elems (h ! a)) (AList.update k x (props (h ! a)))])
      else Inl TypeError)"
| "set_prop h v k x = Inl TypeError"

text \<open>
  Modelled from the spec: the \<open>RequestWrapper\<close> class (\<open>./request\<close>) is not among the
  sources. The spec has it hold the immutable original \<open>request.object\<close> and \<open>Raw\<close>,
  "a deep clone that callbacks freely mutate". \<open>clone\<close> copies a document into the
  store, children before their parent, and returns the value that denotes it.
\<close>

fun clone :: "json \<Rightarrow> heap \<Rightarrow> val \<times> heap"
  and clone_list :: "json list \<Rightarrow> heap \<Rightarrow> val list \<times> heap"
  and clone_props :: "(string \<times> json) list \<Rightarrow> heap \<Rightarrow> (string \<times> val) list \<times> heap"
where
  "clone JNull h = (VNull, h)"
| "clone (JBool b) h = (VBool b, h)"
| "clone (JNum n) h = (VNum n, h)"
| "clone (JStr s) h = (VStr s, h)"
| "clone (JArr xs) h =
     (case clone_list xs h of (vs, h') \<Rightarrow> (VRef (length h'), h' @ [Cell (Some vs) []]))"
| "clone (JObj ps) h =
     (case clone_props ps h of (vs, h') \<Rightarrow> (VRef (length h'), h' @ [Cell None vs]))"
| "clone_list [] h = ([], h)"
| "clone_list (x # xs) h =
     (case clone x h of (v, h1) \<Rightarrow>
        (case clone_list xs h1 of (vs, h2) \<Rightarrow> (v # vs, h2)))"
| "clone_props [] h = ([], h)"
| "clone_props (p # ps) h =
     (case clone (snd p) h of (v, h1) \<Rightarrow>
        (case clone_props ps h1 of (vs, h2) \<Rightarrow> ((fst p, v) # vs, h2)))"

text \<open>
  The document a value denotes in a store. \<open>seen\<close> holds the addresses of the objects
  that enclose the value; meeting one of them again is a cycle, the case in which
  \<open>JSON.stringify\<close> throws, and the result is \<open>None\<close> (as it is for a reference
  outside the store). An object that is shared without a cycle is written out at
  each of its places.
\<close>

function tree_of :: "addr list \<Rightarrow> heap \<Rightarrow> val \<Rightarrow> json option" where
  "tree_of seen h VNull = Some JNull"
| "tree_of seen h (VBool b) = Some (JBool b)"
| "tree_of seen h (VNum i) = Some (JNum i)"
| "tree_of seen h (VStr s) = Some (JStr s)"
| "tree_of seen h (VRef a) =
     (if a < length h \<and> a \<notin> set seen then
        (case elems (h ! a) of
           Some vs \<Rightarrow> map_option JArr (those (map (tree_of (a # seen) h) vs))
         | None \<Rightarrow>
             map_option JObj
               (those (map (\<lambda>p. map_option (Pair (fst p)) (tree_of (a # seen) h (snd p)))
                  (props (h ! a)))))
      else None)"
  by pat_completeness auto
termination
proof (relation "measure (\<lambda>(seen, h, v). card ({..<length h} - set seen))")
  have less: "card ({..<length h} - set (a # seen)) < card ({..<length h} - set seen)"
    if "a < length h" and "a \<notin> set seen" for a :: nat and h :: heap and seen
  proof -
    from that have mem: "a \<in> {..<length h} - set seen"
      by simp
    have fin: "finite ({..<length h} - set seen)"
      by simp
    have eq: "{..<length h} - set (a # seen) = ({..<length h} - set seen) - {a}"
      by auto
    show ?thesis
      unfolding eq using fin mem by (rule card_Diff1_less)
  qed
  show "wf (measure (\<lambda>(seen, h, v). card ({..<length h} - set seen)))"
    by simp
  show "((a # seen, h, snd p), seen, h, VRef a)
      \<in> measure (\<lambda>(seen, h, v). card ({..<length h} - set seen))"
    if "a < length h \<and> a \<notin> set seen"
    for seen :: "addr list" and h :: heap and a and p :: "string \<times> val"
    using that less[of a h seen] by (simp del: set_simps)
  show "((a # seen, h, x), seen, h, VRef a)
      \<in> measure (\<lambda>(seen, h, v). card ({..<length h} - set seen))"
    if "a < length h \<and> a \<notin> set seen" for seen :: "addr list" and h :: heap and a and x :: val
    using that less[of a h seen] by (simp del: set_simps)
qed

section \<open>JSON Patch\<close>

text \<open>
  Modelled from the spec: \<open>jsonPatchDiff\<close> is the function \<open>compare\<close> of the package
  fast-json-patch, which is not among the sources. The spec asks for an RFC 6902
  document of \<open>add\<close>, \<open>remove\<close> and \<open>replace\<close> operations that applies cleanly
  to the original document. \<open>generate\<close> walks the members of the original (the
  mirror) from the last to the first, descends where both sides hold a container of
  the same kind, replaces a member whose value differs, removes a member the new
  document lacks, and then adds the members only the new document has.
\<close>

datatype operation =
    Add string json
  | Remove string
  | Replace string json

fun show_nat :: "nat \<Rightarrow> string" where
  "show_nat n =
     (if n < 10 then [''0123456789'' ! n]
      else show_nat (n div 10) @ [''0123456789'' ! (n mod 10)])"

declare show_nat.simps [simp del]

definition show_int :: "int \<Rightarrow> string" where
  "show_int i = (if i < 0 then ''-'' @ show_nat (nat (- i)) else show_nat (nat i))"

text \<open>RFC 6901: \<open>~\<close> is written \<open>~0\<close> and \<open>/\<close> is written \<open>~1\<close> in a path component.\<close>

fun escapePathComponent :: "string \<Rightarrow> string" where
  "escapePathComponent [] = []"
| "escapePathComponent (c # cs) =
     (if c = CHR ''~'' then ''~0'' @ escapePathComponent cs
      else if c = CHR ''/'' then ''~1'' @ escapePathComponent cs
      else c # escapePathComponent cs)"

fun is_arr :: "json \<Rightarrow> bool" where
  "is_arr (JArr xs) = True"
| "is_arr j = False"

fun is_container :: "json \<Rightarrow> bool" where
  "is_container (JArr xs) = True"
| "is_container (JObj ps) = True"
| "is_container j = False"

text \<open>\<open>_objectKeys\<close>: the member names of an object, the indices of an array.\<close>

fun keys_of :: "json \<Rightarrow> string list" where
  "keys_of (JObj ps) = map fst ps"
| "keys_of (JArr xs) = map show_nat [0..<length xs]"
| "keys_of j = []"

text \<open>\<open>hasOwnProperty\<close> and the property read; an array also owns \<open>length\<close>.\<close>

fun own :: "json \<Rightarrow> string \<Rightarrow> json option" where
  "own (JObj ps) k = map_of ps k"
| "own (JArr xs) k =
     (if k = ''length'' then Some (JNum (int (length xs)))
      else map_of (zip (map show_nat [0..<length xs]) xs) k)"
| "own j k = None"

function generate :: "json \<Rightarrow> json \<Rightarrow> string \<Rightarrow> operation list" where
  "generate mirror obj path =
     (let oldKeys = keys_of mirror;
          newKeys = keys_of obj;
          deleted = list_ex (\<lambda>key. own obj key = None \<and> is_arr mirror = is_arr obj) oldKeys;
          patches =
            concat (map (\<lambda>key.
              (case own mirror key of
                 None \<Rightarrow> []
               | Some oldVal \<Rightarrow>
                   (case own obj key of
                      Some newVal \<Rightarrow>
                        if is_container oldVal \<and> is_container newVal
                           \<and> is_arr oldVal = is_arr newVal
                        then generate oldVal newVal (path @ ''/'' @ escapePathComponent key)
                        else if oldVal \<noteq> newVal
                        then [Replace (path @ ''/'' @ escapePathComponent key) newVal]
                        else []
                    | None \<Rightarrow>
                        if is_arr mirror = is_arr obj
                        then [Remove (path @ ''/'' @ escapePathComponent key)]
                        else [Replace path obj]))) (rev oldKeys))
      in if \<not> deleted \<and> length newKeys = length oldKeys then patches
         else patches @
           concat (map (\<lambda>key.
             (case own obj key of
                Some v \<Rightarrow>
                  if own mirror key = None
                  then [Add (path @ ''/'' @ escapePathComponent key) v]
                  else []
              | None \<Rightarrow> [])) newKeys))"
  by pat_completeness auto
termination
proof (relation "measure (\<lambda>(mirror, obj, path). size mirror)")
  have own_size: "size v < size m" if own: "own m k = Some v" for m k v
  proof (cases m)
    case (JArr xs)
    show ?thesis
    proof (cases "k = ''length''")
      case True
      with own JArr show ?thesis by auto
    next
      case False
      with own JArr have "(k, v) \<in> set (zip (map show_nat [0..<length xs]) xs)"
        by (auto dest: map_of_SomeD)
      then have "v \<in> set xs"
        by (rule set_zip_rightD)
      then have "size v \<le> size_list size xs"
        by (simp add: size_list_estimation')
      with JArr show ?thesis by simp
    qed
  next
    case (JObj ps)
    with own have "(k, v) \<in> set ps"
      by (auto dest: map_of_SomeD)
    then have "size_prod (\<lambda>_. 0) size (k, v) \<le> size_list (size_prod (\<lambda>_. 0) size) ps"
      by (rule size_list_estimation') simp
    with JObj show ?thesis by simp
  qed (use own in auto)
  fix mirror obj :: json and path :: string and oldKeys newKeys deleted x x2 x2a
  assume "own mirror x = Some x2"
  then show "((x2, x2a, path @ ''/'' @ escapePathComponent x), mirror, obj, path)
      \<in> measure (\<lambda>(mirror, obj, path). size mirror)"
    by (simp add: own_size)
qed simp

declare generate.simps [simp del]

text \<open>\<open>JSON.stringify\<close>: no white space, members in order, strings quoted and escaped.\<close>

fun join :: "string \<Rightarrow> string list \<Rightarrow> string" where
  "join sep [] = []"
| "join sep [x] = x"
| "join sep (x # y # ys) = x @ sep @ join sep (y # ys)"

definition hex4 :: "nat \<Rightarrow> string" where
  "hex4 n = ''00'' @ [''0123456789abcdef'' ! (n div 16), ''0123456789abcdef'' ! (n mod 16)]"

definition escape_char :: "char \<Rightarrow> string" where
  "escape_char c =
     (if c = CHR 0x22 then [CHR 0x5C, CHR 0x22]
      else if c = CHR 0x5C then [CHR 0x5C, CHR 0x5C]
      else if c = CHR 0x08 then [CHR 0x5C, CHR ''b'']
      else if c = CHR 0x0C then [CHR 0x5C, CHR ''f'']
      else if c = CHR 0x0A then [CHR 0x5C, CHR ''n'']
      else if c = CHR 0x0D then [CHR 0x5C, CHR ''r'']
      else if c = CHR 0x09 then [CHR 0x5C, CHR ''t'']
      else if (of_char c :: nat) < 32 then [CHR 0x5C, CHR ''u''] @ hex4 (of_char c)
      else [c])"

definition quote :: "string \<Rightarrow> string" where
  "quote s = [CHR 0x22] @ concat (map escape_char s) @ [CHR 0x22]"

fun stringify :: "json \<Rightarrow> string" where
  "stringify JNull = ''null''"
| "stringify (JBool b) = (if b then ''true'' else ''false'')"
| "stringify (JNum i) = show_int i"
| "stringify (JStr s) = quote s"
| "stringify (JArr xs) = ''['' @ join '','' (map stringify xs) @ '']''"
| "stringify (JObj ps) =
     ''{'' @ join '','' (map (\<lambda>p. quote (fst p) @ '':'' @ stringify (snd p)) ps) @ ''}''"

fun operation_json :: "operation \<Rightarrow> json" where
  "operation_json (Add path v) =
     JObj [(''op'', JStr ''add''), (''path'', JStr path), (''value'', v)]"
| "operation_json (Remove path) =
     JObj [(''op'', JStr ''remove''), (''path'', JStr path)]"
| "operation_json (Replace path v) =
     JObj [(''op'', JStr ''replace''), (''path'', JStr path), (''value'', v)]"

definition stringify_patch :: "operation list \<Rightarrow> string" where
  "stringify_patch patches = stringify (JArr (map operation_json patches))"

section \<open>Applying a patch\<close>

text \<open>
  Modelled from the spec: the specification speaks of applying \<open>response.patch\<close> to
  \<open>request.object\<close>, and no source file applies a patch. The operations are those of
  RFC 6902 that the diff produces (\<open>add\<close>, \<open>remove\<close>, \<open>replace\<close>), with the pointers of
  RFC 6901. \<open>None\<close> is an error of the application: a pointer that does not parse, or a
  target that does not exist.
\<close>

text \<open>RFC 6901: \<open>~1\<close> is read as \<open>/\<close> and \<open>~0\<close> as \<open>~\<close>.\<close>

fun unescape :: "string \<Rightarrow> string" where
  "unescape [] = []"
| "unescape [c] = [c]"
| "unescape (c # d # cs) =
     (if c = CHR ''~'' \<and> d = CHR ''0'' then CHR ''~'' # unescape cs
      else if c = CHR ''~'' \<and> d = CHR ''1'' then CHR ''/'' # unescape cs
      else c # unescape (d # cs))"

text \<open>A pointer is empty (the whole document) or a sequence of tokens, each after a \<open>/\<close>.\<close>

fun split_path :: "string \<Rightarrow> string list" where
  "split_path [] = [[]]"
| "split_path (c # cs) =
     (if c = CHR ''/'' then [] # split_path cs
      else (case split_path cs of t # ts \<Rightarrow> (c # t) # ts | [] \<Rightarrow> [[c]]))"

definition parse_pointer :: "string \<Rightarrow> string list option" where
  "parse_pointer s =
     (case s of
        [] \<Rightarrow> Some []
      | c # cs \<Rightarrow> if c = CHR ''/'' then Some (map unescape (split_path cs)) else None)"

text \<open>An array index is a decimal numeral without leading zeros, below the bound.\<close>

definition index_tok :: "nat \<Rightarrow> string \<Rightarrow> nat option" where
  "index_tok n k = List.find (\<lambda>i. show_nat i = k) [0..<n]"

fun child :: "json \<Rightarrow> string \<Rightarrow> json option" where
  "child (JObj ps) k = map_of ps k"
| "child (JArr xs) k = map_option (\<lambda>i. xs ! i) (index_tok (length xs) k)"
| "child j k = None"

text \<open>
  \<open>add\<close> sets the member of an object; in an array it inserts before the index, or
  appends for \<open>-\<close>. \<open>remove\<close> and \<open>replace\<close> need the target to exist.
\<close>

fun add_at :: "json \<Rightarrow> json \<Rightarrow> string \<Rightarrow> json option" where
  "add_at v (JObj ps) k = Some (JObj (AList.update k v ps))"
| "add_at v (JArr xs) k =
     (if k = ''-'' then Some (JArr (xs @ [v]))
      else map_option (\<lambda>i. JArr (take i xs @ v # drop i xs)) (index_tok (Suc (length xs)) k))"
| "add_at v j k = None"

fun remove_at :: "json \<Rightarrow> string \<Rightarrow> json option" where
  "remove_at (JObj ps) k =
     (if map_of ps k = None then None else Some (JObj (AList.delete k ps)))"
| "remove_at (JArr xs) k =
     map_option (\<lambda>i. JArr (take i xs @ drop (Suc i) xs)) (index_tok (length xs) k)"
| "remove_at j k = None"

fun replace_at :: "json \<Rightarrow> json \<Rightarrow> string \<Rightarrow> json option" where
  "replace_at v (JObj ps) k =
     (if map_of ps k = None then None else Some (JObj (AList.update k v ps)))"
| "replace_at v (JArr xs) k = map_option (\<lambda>i. JArr (xs[i := v])) (index_tok (length xs) k)"
| "replace_at v j k = None"

text \<open>The walk to the parent of the target; the changed child is put back on the way up.\<close>

fun modify :: "(json \<Rightarrow> string \<Rightarrow> json option) \<Rightarrow> string list \<Rightarrow> json \<Rightarrow> json option" where
  "modify f [] d = None"
| "modify f [k] d = f d k"
| "modify f (k # k' # ks) d =
     (case child d k of
        None \<Rightarrow> None
      | Some c \<Rightarrow>
          (case modify f (k' # ks) c of
             None \<Rightarrow> None
           | Some c' \<Rightarrow> replace_at c' d k))"

fun apply_operation :: "operation \<Rightarrow> json \<Rightarrow> json option" where
  "apply_operation (Add path v) d =
     (case parse_pointer path of
        None \<Rightarrow> None
      | Some [] \<Rightarrow> Some v
      | Some ks \<Rightarrow> modify (add_at v) ks d)"
| "apply_operation (Remove path) d =
     (case parse_pointer path of
        None \<Rightarrow> None
      | Some ks \<Rightarrow> modify remove_at ks d)"
| "apply_operation (Replace path v) d =
     (case parse_pointer path of
        None \<Rightarrow> None
      | Some [] \<Rightarrow> Some v
      | Some ks \<Rightarrow> modify (replace_at v) ks d)"

fun applyPatch :: "operation list \<Rightarrow> json \<Rightarrow> json option" where
  "applyPatch [] d = Some d"
| "applyPatch (p # ps) d =
     (case apply_operation p d of None \<Rightarrow> None | Some d' \<Rightarrow> applyPatch ps d')"


text \<open>
  Structural equality: arrays element by element, objects member by member, whatever
  the order of the members.
\<close>

fun json_eq :: "json \<Rightarrow> json \<Rightarrow> bool" where
  "json_eq (JObj ps) (JObj qs) =
     (set (map fst qs) \<subseteq> set (map fst ps)
      \<and> list_all (\<lambda>p. case map_of qs (fst p) of None \<Rightarrow> False | Some v \<Rightarrow> json_eq (snd p) v) ps)"
| "json_eq (JArr xs) (JArr ys) = list_all2 json_eq xs ys"
| "json_eq x y = (x = y)"

text \<open>Reading a decimal numeral back.\<close>

definition nat_of :: "string \<Rightarrow> nat" where
  "nat_of s = foldl (\<lambda>n c. 10 * n + (of_char c - 48)) 0 s"

section \<open>Reading a patch\<close>

















section \<open>The diff, key by key\<close>


fun prefix_op :: "string \<Rightarrow> operation \<Rightarrow> operation" where
  "prefix_op q (Add p v) = Add (q @ p) v"
| "prefix_op q (Remove p) = Remove (q @ p)"
| "prefix_op q (Replace p v) = Replace (q @ p) v"



definition deleted :: "json \<Rightarrow> json \<Rightarrow> bool" where
  "deleted mirror obj =
     list_ex (\<lambda>key. own obj key = None \<and> is_arr mirror = is_arr obj) (keys_of mirror)"



section \<open>The data model of the module\<close>

text \<open>
  Field names follow the sources; where two types share a field name the second one
  carries a prefix (\<open>req_uid\<close>, \<open>req_kind\<close>, \<open>req_name\<close> of the request, \<open>bind_kind\<close> of a
  binding, \<open>f_\<close> for a binding's filters, \<open>ig_\<close> for the global ignore lists, \<open>ident\<close>
  for the module's \<open>id\<close>).
\<close>

datatype Event = Create | Update | Delete | CreateOrUpdate

datatype Operation = CREATE | UPDATE | DELETE | CONNECT

record GroupVersionKind =
  group :: string
  version :: string
  kind :: string

record Filters =
  f_namespaces :: "string list"
  f_labels :: "(string \<times> string) list"
  f_annotations :: "(string \<times> string) list"

text \<open>
  The state a callback works on: the store, and the \<open>Raw\<close> field of the request
  wrapper, which is \<open>undefined\<close> (\<open>None\<close>) or a reference to an object.
\<close>

record jsstate =
  cells :: heap
  Raw :: "addr option"

text \<open>
  A callback (\<open>CapabilityAction\<close>) receives the wrapper and returns nothing. It may
  change the store and \<open>Raw\<close> in any way and it may throw, and any value can be
  thrown. The processor only converts the thrown value to a string (\<open>${e}\<close>): the value
  has a string conversion, or converting it throws in turn (a \<open>Symbol\<close>, an object
  without \<open>toString\<close>).
\<close>

datatype thrown = Thrown string | Unprintable

type_synonym CapabilityAction = "jsstate \<Rightarrow> jsstate \<times> thrown option"

record Binding =
  event :: "Event option"
  bind_kind :: GroupVersionKind
  filters :: Filters
  callback :: CapabilityAction

record Capability =
  name :: string
  namespaces :: "string list"
  bindings :: "Binding list"

record ModuleIgnore =
  ig_kinds :: "GroupVersionKind list"
  ig_namespaces :: "string list"
  ig_labels :: "(string \<times> string) list list"

record ModuleConfig =
  ident :: string
  alwaysIgnore :: ModuleIgnore
  rejectOnError :: bool

record Request =
  req_uid :: string
  req_kind :: GroupVersionKind
  req_name :: string
  namespace :: "string option"
  operation :: Operation
  object :: "(string \<times> json) list option"
  oldObject :: "(string \<times> json) list option"

record Response =
  uid :: string
  patchType :: string
  warnings :: "string list"
  allowed :: bool
  result :: "string option"
  patch :: "string option"

section \<open>The filter\<close>

text \<open>
  Modelled from the spec: \<open>shouldSkipRequest\<close> (\<open>./filter\<close>) is not among the sources.
  The definition follows section 4.1 of the spec, condition by condition and in its
  order; any true condition makes the binding skip the request. A \<open>DELETE\<close> request
  carries \<open>oldObject\<close>, and labels and annotations are then read from it. A request
  for a cluster-scoped resource has no namespace, which is in no set.
  The processor below takes the filter as a parameter, so what is proved of the
  processor holds for every filter; this definition serves the concrete runs.
\<close>

definition subject :: "Request \<Rightarrow> (string \<times> json) list option" where
  "subject req = (if operation req = DELETE then oldObject req else object req)"

definition meta_entries :: "Request \<Rightarrow> string \<Rightarrow> (string \<times> json) list" where
  "meta_entries req field =
     (case subject req of
        None \<Rightarrow> []
      | Some ps \<Rightarrow>
          (case map_of ps ''metadata'' of
             Some (JObj ms) \<Rightarrow> (case map_of ms field of Some (JObj ls) \<Rightarrow> ls | _ \<Rightarrow> [])
           | _ \<Rightarrow> []))"

fun event_mismatch :: "Event option \<Rightarrow> Operation \<Rightarrow> bool" where
  "event_mismatch (Some Create) op = (op \<noteq> CREATE)"
| "event_mismatch (Some Update) op = (op \<noteq> UPDATE)"
| "event_mismatch (Some Delete) op = (op \<noteq> DELETE)"
| "event_mismatch (Some CreateOrUpdate) op = (op = DELETE \<or> op = CONNECT)"
| "event_mismatch None op = False"

definition in_namespaces :: "string option \<Rightarrow> string list \<Rightarrow> bool" where
  "in_namespaces ns xs = (case ns of None \<Rightarrow> False | Some n \<Rightarrow> n \<noteq> [] \<and> n \<in> set xs)"

definition kind_ignored :: "GroupVersionKind \<Rightarrow> GroupVersionKind \<Rightarrow> bool" where
  "kind_ignored k e =
     (kind e = kind k \<and> (group e = [] \<or> group e = group k)
      \<and> (version e = [] \<or> version e = version k))"

definition kind_mismatch :: "GroupVersionKind \<Rightarrow> GroupVersionKind \<Rightarrow> bool" where
  "kind_mismatch b k =
     (kind b \<noteq> kind k \<or> (group b \<noteq> [] \<and> group b \<noteq> group k)
      \<or> (version b \<noteq> [] \<and> version b \<noteq> version k))"

definition selector_mismatch :: "(string \<times> json) list \<Rightarrow> string \<times> string \<Rightarrow> bool" where
  "selector_mismatch have want =
     (case map_of have (fst want) of
        None \<Rightarrow> True
      | Some x \<Rightarrow> snd want \<noteq> [] \<and> x \<noteq> JStr (snd want))"

definition shouldSkipRequest :: "ModuleConfig \<Rightarrow> Binding \<Rightarrow> Request \<Rightarrow> bool" where
  "shouldSkipRequest config binding req =
     (event_mismatch (event binding) (operation req)
      \<or> list_ex (kind_ignored (req_kind req)) (ig_kinds (alwaysIgnore config))
      \<or> in_namespaces (namespace req) (ig_namespaces (alwaysIgnore config))
      \<or> list_ex (\<lambda>m. list_all (\<lambda>p. map_of (meta_entries req ''labels'') (fst p) = Some (JStr (snd p))) m)
           (ig_labels (alwaysIgnore config))
      \<or> kind_mismatch (bind_kind binding) (req_kind req)
      \<or> (f_namespaces (filters binding) \<noteq> []
          \<and> \<not> in_namespaces (namespace req) (f_namespaces (filters binding)))
      \<or> list_ex (selector_mismatch (meta_entries req ''labels'')) (f_labels (filters binding))
      \<or> list_ex (selector_mismatch (meta_entries req ''annotations''))
           (f_annotations (filters binding)))"

section \<open>The processor\<close>

text \<open>
  \<open>processor\<close> of \<open>src/lib/processor.ts\<close>. Its effects are explicit: the store and the
  wrapper's \<open>Raw\<close>, the response under construction, and the lines handed to the
  logger. An uncaught exception is the outcome \<open>Throw\<close>; the early \<open>return response\<close>
  of the reject-on-error branch is the outcome \<open>Return\<close>.
\<close>

datatype level = LDebug | LInfo | LWarn | LError

datatype logline = Log level string string

record pstate =
  js :: jsstate
  response :: Response
  logs :: "logline list"

datatype flow = Continue | Return | Throw error

text \<open>The constructor of the wrapper: \<open>Raw\<close> is a deep clone of \<open>req.object\<close>.\<close>

definition RequestWrapper :: "Request \<Rightarrow> jsstate" where
  "RequestWrapper req =
     (case object req of
        None \<Rightarrow> \<lparr>cells = [], Raw = None\<rparr>
      | Some ps \<Rightarrow>
          (case clone (JObj ps) [] of
             (v, h) \<Rightarrow> \<lparr>cells = h, Raw = (case v of VRef a \<Rightarrow> Some a | _ \<Rightarrow> None)\<rparr>))"

definition identifier_of :: "ModuleConfig \<Rightarrow> string \<Rightarrow> string" where
  "identifier_of config nm = ''pepr.dev/'' @ ident config @ ''/'' @ nm"

definition log_prefix :: "Request \<Rightarrow> string \<Rightarrow> string" where
  "log_prefix req nm = req_uid req @ '' '' @ req_name req @ '': '' @ nm"

text \<open>\<open>metadata.annotations = metadata.annotations || {}\<close>\<close>

definition ensure_annotations :: "heap \<Rightarrow> val option \<Rightarrow> error + heap" where
  "ensure_annotations h metadata =
     (case get_prop h metadata ''annotations'' of
        Inl e \<Rightarrow> Inl e
      | Inr a \<Rightarrow>
          (case a of
             Some v \<Rightarrow>
               if truthy (Some v) then set_prop h metadata ''annotations'' v
               else set_prop (h @ [Cell None []]) metadata ''annotations'' (VRef (length h))
           | None \<Rightarrow> set_prop (h @ [Cell None []]) metadata ''annotations'' (VRef (length h))))"

text \<open>\<open>metadata.annotations[identifier] = status\<close>\<close>

definition stamp :: "heap \<Rightarrow> val option \<Rightarrow> string \<Rightarrow> string \<Rightarrow> error + heap" where
  "stamp h metadata key status =
     (case get_prop h metadata ''annotations'' of
        Inl e \<Rightarrow> Inl e
      | Inr a \<Rightarrow> set_prop h a key (VStr status))"

text \<open>\<open>${e}\<close> for an exception of the engine; the text of its message is left out.\<close>

definition show_error :: "error \<Rightarrow> string" where
  "show_error e = ''TypeError''"

definition add_log :: "logline \<Rightarrow> pstate \<Rightarrow> pstate" where
  "add_log l s = s\<lparr>logs := logs s @ [l]\<rparr>"

text \<open>\<open>${e}\<close> for a thrown value: its string conversion, or a \<open>TypeError\<close>.\<close>

fun render :: "thrown \<Rightarrow> error + string" where
  "render (Thrown msg) = Inr msg"
| "render Unprintable = Inl TypeError"

text \<open>
  Lines 587 to 590, before the \<open>try\<close>: \<open>metadata\<close> is read from \<open>Raw\<close> once, its
  annotations are created if need be, and the capability is stamped "started". The
  result is the value of \<open>metadata\<close> and the working copy the callback receives.
\<close>

definition begin_action :: "ModuleConfig \<Rightarrow> string \<Rightarrow> jsstate \<Rightarrow> error + val option \<times> jsstate" where
  "begin_action config nm w =
     (case get_prop (cells w) (map_option VRef (Raw w)) ''metadata'' of
        Inl e \<Rightarrow> Inl e
      | Inr metadata \<Rightarrow>
          (case ensure_annotations (cells w) metadata of
             Inl e \<Rightarrow> Inl e
           | Inr h1 \<Rightarrow>
               (case stamp h1 metadata (identifier_of config nm) ''started'' of
                  Inl e \<Rightarrow> Inl e
                | Inr h2 \<Rightarrow> Inr (metadata, w\<lparr>cells := h2\<rparr>))))"

text \<open>
  The body of the inner loop for a binding that is not skipped (lines 583 to 610). An
  exception of the \<open>try\<close> block is the value the callback threw or the \<open>TypeError\<close> of the
  "succeeded" stamp. The \<open>catch\<close> block converts it to a string first, which may throw;
  so may its last statement, the "warning" stamp.
\<close>

definition run_action :: "ModuleConfig \<Rightarrow> Request \<Rightarrow> string \<Rightarrow> Binding \<Rightarrow> pstate \<Rightarrow> flow \<times> pstate" where
  "run_action config req nm action s0 =
     (let prefix = log_prefix req nm;
          s = add_log (Log LInfo (''Processing matched action '' @ kind (bind_kind action)) prefix) s0;
          key = identifier_of config nm
      in case begin_action config nm (js s) of
           Inl e \<Rightarrow> (Throw e, s)
         | Inr (metadata, w0) \<Rightarrow>
        (case callback action w0 of
           (w, thrown) \<Rightarrow>
        (case (case thrown of
                 Some e \<Rightarrow> Inl e
               | None \<Rightarrow>
                   (case stamp (cells w) metadata key ''succeeded'' of
                      Inl err \<Rightarrow> Inl (Thrown (show_error err))
                    | Inr h3 \<Rightarrow> Inr h3)) of
           Inr h3 \<Rightarrow> (Continue, s\<lparr>js := w\<lparr>cells := h3\<rparr>\<rparr>)
         | Inl e \<Rightarrow>
        (case render e of
           Inl err \<Rightarrow> (Throw err, s\<lparr>js := w\<rparr>)
         | Inr msg \<Rightarrow>
             (let s' = s\<lparr>js := w,
                         response := (response s)
                           \<lparr>warnings := warnings (response s) @ [''Action failed: '' @ msg]\<rparr>\<rparr>
              in if rejectOnError config
                 then (Return,
                       (add_log (Log LError (''Action failed: '' @ msg) prefix) s')
                         \<lparr>response := (response s')
                            \<lparr>result := Some ''Pepr module configured to reject on error''\<rparr>\<rparr>)
                 else (case stamp (cells w) metadata key ''warning'' of
                         Inl err \<Rightarrow>
                           (Throw err, add_log (Log LWarn (''Action failed: '' @ msg) prefix) s')
                       | Inr h4 \<Rightarrow>
                           (Continue,
                            (add_log (Log LWarn (''Action failed: '' @ msg) prefix) s')
                              \<lparr>js := w\<lparr>cells := h4\<rparr>\<rparr>)))))))"

text \<open>The inner loop over the bindings of one capability (lines 577 to 611).\<close>

fun run_bindings ::
  "(Binding \<Rightarrow> Request \<Rightarrow> bool) \<Rightarrow> ModuleConfig \<Rightarrow> Request \<Rightarrow> string \<Rightarrow> Binding list
     \<Rightarrow> pstate \<Rightarrow> flow \<times> pstate" where
  "run_bindings skip config req nm [] s = (Continue, s)"
| "run_bindings skip config req nm (action # rest) s =
     (if skip action req then run_bindings skip config req nm rest s
      else (case run_action config req nm action s of
              (Continue, s') \<Rightarrow> run_bindings skip config req nm rest s'
            | (Return, s') \<Rightarrow> (Return, s')
            | (Throw e, s') \<Rightarrow> (Throw e, s')))"

text \<open>The outer loop over the capabilities (lines 573 to 612).\<close>

fun run_capabilities ::
  "(Binding \<Rightarrow> Request \<Rightarrow> bool) \<Rightarrow> ModuleConfig \<Rightarrow> Request \<Rightarrow> Capability list
     \<Rightarrow> pstate \<Rightarrow> flow \<times> pstate" where
  "run_capabilities skip config req [] s = (Continue, s)"
| "run_capabilities skip config req (c # cs) s =
     (case run_bindings skip config req (name c) (bindings c)
             (add_log (Log LInfo (''Processing capability '' @ name c)
                         (log_prefix req (name c))) s) of
        (Continue, s') \<Rightarrow> run_capabilities skip config req cs s'
      | (Return, s') \<Rightarrow> (Return, s')
      | (Throw e, s') \<Rightarrow> (Throw e, s'))"

text \<open>
  \<open>compare(req.object, wrapped.Raw)\<close>. Two \<open>undefined\<close> are identical and give the
  empty patch. Otherwise \<open>compare\<close> reads a property of each side, which throws for
  \<open>undefined\<close>; and serialising a cyclic working copy throws.
\<close>

definition compare :: "(string \<times> json) list option \<Rightarrow> jsstate \<Rightarrow> error + operation list" where
  "compare tree1 w =
     (case (tree1, Raw w) of
        (None, None) \<Rightarrow> Inr []
      | (None, Some a) \<Rightarrow> Inl TypeError
      | (Some ps, None) \<Rightarrow> Inl TypeError
      | (Some ps, Some a) \<Rightarrow>
          (case tree_of [] (cells w) (VRef a) of
             None \<Rightarrow> Inl TypeError
           | Some tree2 \<Rightarrow> Inr (generate (JObj ps) tree2 [])))"

text \<open>The document that \<open>Raw\<close> denotes, if it denotes one.\<close>

definition document :: "jsstate \<Rightarrow> json option" where
  "document w = (case Raw w of None \<Rightarrow> None | Some a \<Rightarrow> tree_of [] (cells w) (VRef a))"

definition initial :: "Request \<Rightarrow> pstate" where
  "initial req =
     \<lparr>js = RequestWrapper req,
      response = \<lparr>uid = req_uid req, patchType = ''JSONPatch'', warnings = [],
                  allowed = False, result = None, patch = None\<rparr>,
      logs = [Log LInfo (''Processing '' @ [CHR 0x27] @ req_uid req @ [CHR 0x27] @ '' for ''
                @ [CHR 0x27] @ kind (req_kind req) @ [CHR 0x27] @ '' '' @ [CHR 0x27]
                @ req_name req @ [CHR 0x27]) []]\<rparr>"

text \<open>
  What follows the loops (lines 614 to 621), and the two ways out of them: the early
  \<open>return response\<close> and an exception nothing catches.
\<close>

definition finish :: "Request \<Rightarrow> flow \<times> pstate \<Rightarrow> (error + Response) \<times> logline list" where
  "finish req r =
     (case r of
        (Throw e, s) \<Rightarrow> (Inl e, logs s)
      | (Return, s) \<Rightarrow> (Inr (response s), logs s)
      | (Continue, s) \<Rightarrow>
          (case compare (object req) (js s) of
             Inl e \<Rightarrow> (Inl e, logs s)
           | Inr patches \<Rightarrow>
               (Inr ((response s)\<lparr>allowed := True, patch := Some (stringify_patch patches)\<rparr>),
                logs s @ [Log LDebug (stringify_patch patches) []])))"

definition processor ::
  "(Binding \<Rightarrow> Request \<Rightarrow> bool) \<Rightarrow> ModuleConfig \<Rightarrow> Capability list \<Rightarrow> Request
     \<Rightarrow> (error + Response) \<times> logline list" where
  "processor skip config capabilities req =
     finish req (run_capabilities skip config req capabilities (initial req))"

text \<open>
  The log is the trace of an execution. A binding that is not skipped logs
  "Processing matched action" before anything else, and the \<open>catch\<close> block logs the
  failure at level \<open>error\<close> (reject on error) or \<open>warn\<close>; nothing else is logged at
  these two levels.
\<close>

fun failure :: "logline \<Rightarrow> bool" where
  "failure (Log LError m p) = True"
| "failure (Log LWarn m p) = True"
| "failure (Log LInfo m p) = False"
| "failure (Log LDebug m p) = False"

text \<open>\<open>occurs xs ys\<close>: the text \<open>xs\<close> occurs somewhere in \<open>ys\<close>.\<close>

fun occurs :: "string \<Rightarrow> string \<Rightarrow> bool" where
  "occurs xs [] = (xs = [])"
| "occurs xs (y # ys) = (take (length xs) (y # ys) = xs \<or> occurs xs ys)"

section \<open>The stamps on a document\<close>










section \<open>Example runs\<close>

text \<open>
  A \<open>CREATE\<close> of the Pod \<open>p1\<close> in namespace \<open>default\<close>, a module \<open>m\<close> without global
  ignores, and bindings \<open>When(Pod).IsCreated().Then(callback)\<close>.
\<close>

definition pod :: GroupVersionKind where
  "pod = \<lparr>group = [], version = ''v1'', kind = ''Pod''\<rparr>"

definition example_config :: "bool \<Rightarrow> ModuleConfig" where
  "example_config r =
     \<lparr>ident = ''m'',
      alwaysIgnore = \<lparr>ig_kinds = [], ig_namespaces = [], ig_labels = []\<rparr>,
      rejectOnError = r\<rparr>"

definition pod_request :: Request where
  "pod_request =
     \<lparr>req_uid = ''u1'', req_kind = pod, req_name = ''p1'', namespace = Some ''default'',
      operation = CREATE,
      object = Some [(''metadata'', JObj [(''name'', JStr ''p1'')])],
      oldObject = None\<rparr>"

definition when_pod_created :: "string list \<Rightarrow> CapabilityAction \<Rightarrow> Binding" where
  "when_pod_created nss cb =
     \<lparr>event = Some Create, bind_kind = pod,
      filters = \<lparr>f_namespaces = nss, f_labels = [], f_annotations = []\<rparr>,
      callback = cb\<rparr>"

text \<open>\<open>w => {}\<close>\<close>

definition do_nothing :: CapabilityAction where
  "do_nothing w = (w, None)"

text \<open>\<open>w => { throw new Error("boom") }\<close>\<close>

definition throw_error :: CapabilityAction where
  "throw_error w = (w, Some (Thrown ''Error: boom''))"

definition raw_metadata :: "jsstate \<Rightarrow> val option" where
  "raw_metadata w =
     (case get_prop (cells w) (map_option VRef (Raw w)) ''metadata'' of
        Inr v \<Rightarrow> v
      | Inl e \<Rightarrow> None)"


text \<open>\<open>w => { w.Raw.metadata = {}; throw new Error("boom") }\<close>\<close>

definition replace_metadata_then_throw :: CapabilityAction where
  "replace_metadata_then_throw w =
     (case set_prop (cells w @ [Cell None []]) (map_option VRef (Raw w)) ''metadata''
             (VRef (length (cells w))) of
        Inr h \<Rightarrow> (w\<lparr>cells := h\<rparr>, Some (Thrown ''Error: boom''))
      | Inl e \<Rightarrow> (w, Some (Thrown (show_error e))))"

text \<open>\<open>w => { w.Raw.metadata.self = w.Raw.metadata }\<close>\<close>

definition make_cycle :: CapabilityAction where
  "make_cycle w =
     (case raw_metadata w of
        Some m \<Rightarrow>
          (case set_prop (cells w) (Some m) ''self'' m of
             Inr h \<Rightarrow> (w\<lparr>cells := h\<rparr>, None)
           | Inl e \<Rightarrow> (w, Some (Thrown (show_error e))))
      | None \<Rightarrow> (w, Some (Thrown (show_error TypeError))))"

text \<open>\<open>w => { w.Raw = [1, 5] }\<close>\<close>

definition raw_becomes_array :: CapabilityAction where
  "raw_becomes_array w =
     (\<lparr>cells = cells w @ [Cell (Some [VNum 1, VNum 5]) []], Raw = Some (length (cells w))\<rparr>, None)"




text \<open>\<open>w => { throw Symbol("boom") }\<close>\<close>

definition throw_symbol :: CapabilityAction where
  "throw_symbol w = (w, Some Unprintable)"





section \<open>Loop rules\<close>

text \<open>
  An invariant \<open>P\<close> of the state that every executed binding keeps while the loop goes
  on, and a property \<open>Q\<close> of the state in which a binding leaves the loop, carry over
  to the loops.
\<close>

lemma run_bindings_rule:
  assumes step: "\<And>b s f s'. P s \<Longrightarrow> run_action config req nm b s = (f, s') \<Longrightarrow>
                   (case f of Continue \<Rightarrow> P s' | _ \<Rightarrow> Q f s')"
    and init: "P s"
    and run: "run_bindings skip config req nm bs s = (f, s')"
  shows "case f of Continue \<Rightarrow> P s' | _ \<Rightarrow> Q f s'"
  using init run
proof (induction bs arbitrary: s)
  case Nil
  then show ?case by simp
next
  case (Cons b bs)
  show ?case
  proof (cases "skip b req")
    case True
    with Cons show ?thesis by simp
  next
    case False
    obtain g t where ra: "run_action config req nm b s = (g, t)"
      by (cases "run_action config req nm b s")
    from step[OF Cons.prems(1) ra] have st: "case g of Continue \<Rightarrow> P t | _ \<Rightarrow> Q g t" .
    show ?thesis
    proof (cases g)
      case Continue
      with Cons.prems False ra have "run_bindings skip config req nm bs t = (f, s')" by simp
      moreover from st Continue have "P t" by simp
      ultimately show ?thesis by (rule Cons.IH[rotated])
    next
      case Return
      with Cons.prems False ra have "f = Return" "s' = t" by simp_all
      with st Return show ?thesis by simp
    next
      case (Throw e)
      with Cons.prems False ra have "f = Throw e" "s' = t" by simp_all
      with st Throw show ?thesis by simp
    qed
  qed
qed

lemma run_capabilities_rule:
  assumes step: "\<And>nm b s f s'. P s \<Longrightarrow> run_action config req nm b s = (f, s') \<Longrightarrow>
                   (case f of Continue \<Rightarrow> P s' | _ \<Rightarrow> Q f s')"
    and log: "\<And>s m p. P s \<Longrightarrow> P (add_log (Log LInfo m p) s)"
    and init: "P s"
    and run: "run_capabilities skip config req cs s = (f, s')"
  shows "case f of Continue \<Rightarrow> P s' | _ \<Rightarrow> Q f s'"
  using init run
proof (induction cs arbitrary: s)
  case Nil
  then show ?case by simp
next
  case (Cons c cs)
  let ?s1 = "add_log (Log LInfo (''Processing capability '' @ name c) (log_prefix req (name c))) s"
  obtain g t where rb: "run_bindings skip config req (name c) (bindings c) ?s1 = (g, t)"
    by (cases "run_bindings skip config req (name c) (bindings c) ?s1")
  have "P ?s1" using Cons.prems(1) by (rule log)
  with step have st: "case g of Continue \<Rightarrow> P t | _ \<Rightarrow> Q g t"
    using rb by (rule run_bindings_rule)
  show ?case
  proof (cases g)
    case Continue
    with Cons.prems rb have "run_capabilities skip config req cs t = (f, s')" by simp
    moreover from st Continue have "P t" by simp
    ultimately show ?thesis by (rule Cons.IH[rotated])
  next
    case Return
    with Cons.prems rb have "f = Return" "s' = t" by simp_all
    with st Return show ?thesis by simp
  next
    case (Throw e)
    with Cons.prems rb have "f = Throw e" "s' = t" by simp_all
    with st Throw show ?thesis by simp
  qed
qed


lemma run_bindings_append:
  "run_bindings skip config req nm (bs1 @ bs2) s =
     (case run_bindings skip config req nm bs1 s of
        (Continue, t) \<Rightarrow> run_bindings skip config req nm bs2 t
      | (Return, t) \<Rightarrow> (Return, t)
      | (Throw e, t) \<Rightarrow> (Throw e, t))"
  by (induction bs1 arbitrary: s) (auto split: prod.splits flow.splits)

lemma run_capabilities_append:
  "run_capabilities skip config req (cs1 @ cs2) s =
     (case run_capabilities skip config req cs1 s of
        (Continue, t) \<Rightarrow> run_capabilities skip config req cs2 t
      | (Return, t) \<Rightarrow> (Return, t)
      | (Throw e, t) \<Rightarrow> (Throw e, t))"
  by (induction cs1 arbitrary: s) (auto split: prod.splits flow.splits)

lemma run_bindings_all_skipped:
  "\<forall>b \<in> set bs. skip b req \<Longrightarrow> run_bindings skip config req nm bs s = (Continue, s)"
  by (induction bs arbitrary: s) auto

lemma run_capabilities_all_skipped:
  "\<forall>c \<in> set cs. \<forall>b \<in> set (bindings c). skip b req \<Longrightarrow>
     \<exists>s'. run_capabilities skip config req cs s = (Continue, s')
          \<and> js s' = js s \<and> response s' = response s"
proof (induction cs arbitrary: s)
  case Nil
  then show ?case by simp
next
  case (Cons c cs)
  let ?s1 = "add_log (Log LInfo (''Processing capability '' @ name c) (log_prefix req (name c))) s"
  from Cons.prems have "run_bindings skip config req (name c) (bindings c) ?s1 = (Continue, ?s1)"
    by (simp add: run_bindings_all_skipped)
  moreover from Cons.prems have "\<forall>c \<in> set cs. \<forall>b \<in> set (bindings c). skip b req"
    by simp
  with Cons.IH[where s = ?s1] obtain s' where
    "run_capabilities skip config req cs ?s1 = (Continue, s')" "js s' = js ?s1" "response s' = response ?s1"
    by blast
  ultimately show ?case
    by (simp add: add_log_def)
qed

lemma run_action_frame:
  "run_action config req nm b s = (f, s') \<Longrightarrow>
     uid (response s') = uid (response s) \<and> patchType (response s') = patchType (response s)
     \<and> allowed (response s') = allowed (response s) \<and> patch (response s') = patch (response s)"
  by (auto simp: run_action_def Let_def add_log_def split: sum.splits option.splits prod.splits if_splits)

lemma initial_simps:
  "uid (response (initial req)) = req_uid req"
  "warnings (response (initial req)) = []"
  "allowed (response (initial req)) = False"
  "result (response (initial req)) = None"
  "patch (response (initial req)) = None"
  "list_ex failure (logs (initial req)) = False"
  by (simp_all add: initial_def)


section \<open>Reject on error\<close>

text \<open>
  The \<open>catch\<close> block for a thrown value with a string conversion, reject on error: the
  warning, the log line, the result, and the early return.
\<close>

lemma run_action_rejects:
  assumes rej: "rejectOnError config"
    and begun: "begin_action config nm (js s) = Inr (metadata, w0)"
    and fails: "callback b w0 = (w, Some (Thrown e))"
  shows "run_action config req nm b s =
           (Return,
            s\<lparr>js := w,
              response := (response s)
                \<lparr>warnings := warnings (response s) @ [''Action failed: '' @ e],
                 result := Some ''Pepr module configured to reject on error''\<rparr>,
              logs := logs s @
                [Log LInfo (''Processing matched action '' @ kind (bind_kind b)) (log_prefix req nm),
                 Log LError (''Action failed: '' @ e) (log_prefix req nm)]\<rparr>)"
  using assms by (simp add: run_action_def Let_def add_log_def)

text \<open>While the loops go on under reject on error, no failure has been recorded.\<close>

lemma run_action_quiet:
  assumes rej: "rejectOnError config"
    and ra: "run_action config req nm b s = (Continue, s')"
  shows "response s' = response s \<and> list_ex failure (logs s') = list_ex failure (logs s)"
  using assms
  by (auto simp: run_action_def Let_def add_log_def
      split: sum.splits option.splits prod.splits if_splits)

lemma run_bindings_quiet:
  assumes rej: "rejectOnError config"
  shows "run_bindings skip config req nm bs s = (Continue, s') \<Longrightarrow>
         response s' = response s \<and> list_ex failure (logs s') = list_ex failure (logs s)"
proof (induction bs arbitrary: s)
  case Nil
  then show ?case by simp
next
  case (Cons b bs)
  show ?case
  proof (cases "skip b req")
    case True
    with Cons show ?thesis by simp
  next
    case False
    obtain g t where ra: "run_action config req nm b s = (g, t)"
      by (cases "run_action config req nm b s")
    with Cons.prems False have g: "g = Continue" and rest: "run_bindings skip config req nm bs t = (Continue, s')"
      by (cases g; simp)+
    from run_action_quiet[OF rej ra[unfolded g]] Cons.IH[OF rest] show ?thesis
      by simp
  qed
qed

lemma run_capabilities_quiet:
  assumes rej: "rejectOnError config"
  shows "run_capabilities skip config req cs s = (Continue, s') \<Longrightarrow>
         response s' = response s \<and> list_ex failure (logs s') = list_ex failure (logs s)"
proof (induction cs arbitrary: s)
  case Nil
  then show ?case by simp
next
  case (Cons c cs)
  let ?s1 = "add_log (Log LInfo (''Processing capability '' @ name c) (log_prefix req (name c))) s"
  obtain g t where rb: "run_bindings skip config req (name c) (bindings c) ?s1 = (g, t)"
    by (cases "run_bindings skip config req (name c) (bindings c) ?s1")
  with Cons.prems have g: "g = Continue" and rest: "run_capabilities skip config req cs t = (Continue, s')"
    by (cases g; simp)+
  from run_bindings_quiet[OF rej rb[unfolded g]] Cons.IH[OF rest] show ?case
    by (simp add: add_log_def)
qed

text \<open>
  The whole run when the callback of a binding that is reached fails: the capabilities
  \<open>cs1\<close> and the bindings \<open>bs1\<close> before it have gone through, and whatever comes after
  it (\<open>bs2\<close>, \<open>cs2\<close>) has no part in the outcome.
\<close>

lemma reject_run:
  assumes rej: "rejectOnError config"
    and before: "run_capabilities skip config req cs1 (initial req) = (Continue, s0)"
    and inner: "run_bindings skip config req (name c) bs1
                  (add_log (Log LInfo (''Processing capability '' @ name c) (log_prefix req (name c))) s0)
                = (Continue, s)"
    and matched: "\<not> skip b req"
    and begun: "begin_action config (name c) (js s) = Inr (metadata, w0)"
    and fails: "callback b w0 = (w, Some (Thrown e))"
  shows "processor skip config (cs1 @ c\<lparr>bindings := bs1 @ b # bs2\<rparr> # cs2) req =
           (Inr \<lparr>uid = req_uid req, patchType = ''JSONPatch'',
                 warnings = [''Action failed: '' @ e], allowed = False,
                 result = Some ''Pepr module configured to reject on error'', patch = None\<rparr>,
            logs s @
              [Log LInfo (''Processing matched action '' @ kind (bind_kind b)) (log_prefix req (name c)),
               Log LError (''Action failed: '' @ e) (log_prefix req (name c))])"
    and "\<not> list_ex failure (logs s)"
proof -
  from run_capabilities_quiet[OF rej before] run_bindings_quiet[OF rej inner]
  have r: "response s = response (initial req)" and l: "\<not> list_ex failure (logs s)"
    by (simp_all add: add_log_def initial_def)
  from l show "\<not> list_ex failure (logs s)" .
  from before inner matched run_action_rejects[OF rej begun fails, of req] r
  show "processor skip config (cs1 @ c\<lparr>bindings := bs1 @ b # bs2\<rparr> # cs2) req =
           (Inr \<lparr>uid = req_uid req, patchType = ''JSONPatch'',
                 warnings = [''Action failed: '' @ e], allowed = False,
                 result = Some ''Pepr module configured to reject on error'', patch = None\<rparr>,
            logs s @
              [Log LInfo (''Processing matched action '' @ kind (bind_kind b)) (log_prefix req (name c)),
               Log LError (''Action failed: '' @ e) (log_prefix req (name c))])"
    by (simp add: processor_def finish_def run_capabilities_append run_bindings_append initial_def)
qed





text \<open>
  C5. When the callback of a binding that the execution reaches throws a value that has
  a string conversion and \<open>rejectOnError\<close> is set, the processor returns a response whose
  \<open>result\<close> is the text "Pepr module configured to reject on error" (amended: the
  claim's text lacks the leading "Pepr ").
\<close>

theorem reject_result_text:
  assumes rej: "rejectOnError config"
    and before: "run_capabilities skip config req cs1 (initial req) = (Continue, s0)"
    and inner: "run_bindings skip config req (name c) bs1
                  (add_log (Log LInfo (''Processing capability '' @ name c) (log_prefix req (name c))) s0)
                = (Continue, s)"
    and matched: "\<not> skip b req"
    and begun: "begin_action config (name c) (js s) = Inr (metadata, w0)"
    and fails: "callback b w0 = (w, Some (Thrown e))"
  shows "\<exists>r. fst (processor skip config (cs1 @ c\<lparr>bindings := bs1 @ b # bs2\<rparr> # cs2) req) = Inr r
             \<and> result r = Some ''Pepr module configured to reject on error''"
  using reject_run(1)[OF assms, of bs2 cs2] by simp

theorem reject_result_text_counterexample:
  "\<not> (case fst (processor (shouldSkipRequest (example_config True)) (example_config True)
        [\<lparr>name = ''c1'', namespaces = [], bindings = [when_pod_created [] throw_error]\<rparr>]
        pod_request) of
        Inr r \<Rightarrow> result r = Some ''module configured to reject on error''
      | Inl e \<Rightarrow> False)
   \<and> fst (processor (shouldSkipRequest (example_config True)) (example_config True)
        [\<lparr>name = ''c1'', namespaces = [], bindings = [when_pod_created [] throw_symbol]\<rparr>]
        pod_request) = Inl TypeError"
  by code_simp

theorem reject_result_text_witness:
  "rejectOnError (example_config True)
   \<and> \<not> shouldSkipRequest (example_config True) (when_pod_created [] throw_error) pod_request
   \<and> (case fst (processor (shouldSkipRequest (example_config True)) (example_config True)
        [\<lparr>name = ''c1'', namespaces = [], bindings = [when_pod_created [] throw_error]\<rparr>]
        pod_request) of
        Inr r \<Rightarrow> result r = Some ''Pepr module configured to reject on error''
      | Inl e \<Rightarrow> False)"
proof -
  let ?cfg = "example_config True"
  let ?skip = "shouldSkipRequest ?cfg"
  let ?b = "when_pod_created [] throw_error"
  let ?c = "\<lparr>name = ''c1'', namespaces = [], bindings = []\<rparr>"
  let ?s1 = "add_log (Log LInfo (''Processing capability '' @ name ?c) (log_prefix pod_request (name ?c)))
              (initial pod_request)"
  define md where "md = fst (projr (begin_action ?cfg (name ?c) (js ?s1)))"
  define w0 where "w0 = snd (projr (begin_action ?cfg (name ?c) (js ?s1)))"
  have a1: "rejectOnError ?cfg"
    by (simp add: example_config_def)
  have a2: "run_capabilities ?skip ?cfg pod_request [] (initial pod_request)
              = (Continue, initial pod_request)"
    by simp
  have a3: "run_bindings ?skip ?cfg pod_request (name ?c) [] ?s1 = (Continue, ?s1)"
    by simp
  have a4: "\<not> ?skip ?b pod_request"
    by code_simp
  have "\<not> isl (begin_action ?cfg (name ?c) (js ?s1))"
    by code_simp
  then have a5: "begin_action ?cfg (name ?c) (js ?s1) = Inr (md, w0)"
    unfolding md_def w0_def by simp
  have a6: "callback ?b w0 = (w0, Some (Thrown ''Error: boom''))"
    by (simp add: when_pod_created_def throw_error_def)
  from reject_result_text[OF a1 a2 a3 a4 a5 a6, of "[]" "[]"]
  obtain r where "fst (processor ?skip ?cfg ([] @ ?c\<lparr>bindings := [] @ ?b # []\<rparr> # []) pod_request) = Inr r"
    and "result r = Some ''Pepr module configured to reject on error''"
    by blast
  with a1 a4 show ?thesis
    by simp
qed


section \<open>The response\<close>

text \<open>
  C7. Every response the processor returns, on the early return as well, carries the
  \<open>uid\<close> of the request.
\<close>

theorem response_uid:
  assumes "fst (processor skip config capabilities req) = Inr r"
  shows "uid r = req_uid req"
proof -
  obtain f s where rc: "run_capabilities skip config req capabilities (initial req) = (f, s)"
    by (cases "run_capabilities skip config req capabilities (initial req)")
  define P :: "pstate \<Rightarrow> bool" where "P = (\<lambda>s. uid (response s) = req_uid req)"
  have step: "case f of Continue \<Rightarrow> P s' | _ \<Rightarrow> P s'"
    if "P s" and "run_action config req nm b s = (f, s')" for nm b s f s'
    using that run_action_frame[of config req nm b s f s'] by (cases f) (simp_all add: P_def)
  have log: "P (add_log (Log LInfo m p) s)" if "P s" for s m p
    using that by (simp add: P_def add_log_def)
  have "P (initial req)"
    by (simp add: P_def initial_simps)
  from run_capabilities_rule[of P config req "\<lambda>f. P", OF step log this rc]
  have "uid (response s) = req_uid req"
    by (cases f) (simp_all add: P_def)
  with assms rc show ?thesis
    by (cases f) (auto simp: processor_def finish_def split: sum.splits)
qed

theorem response_uid_witness:
  "(case fst (processor (shouldSkipRequest (example_config True)) (example_config True)
        [\<lparr>name = ''c1'', namespaces = [],
          bindings = [when_pod_created [] do_nothing, when_pod_created [] throw_error]\<rparr>] pod_request) of
      Inr r \<Rightarrow> uid r = ''u1''
    | Inl e \<Rightarrow> False)"
proof -
  let ?run = "processor (shouldSkipRequest (example_config True)) (example_config True)
        [\<lparr>name = ''c1'', namespaces = [],
          bindings = [when_pod_created [] do_nothing, when_pod_created [] throw_error]\<rparr>] pod_request"
  have "\<not> isl (fst ?run)"
    by code_simp
  then obtain r where r: "fst ?run = Inr r"
    by (cases "fst ?run") auto
  from response_uid[OF r] r show ?thesis
    by (simp add: pod_request_def)
qed


section \<open>Failure of the diff\<close>

text \<open>
  C8 (amended). The processor has no handler around the diff: when \<open>compare\<close> throws
  after the loops have finished, the exception leaves the processor and no response
  is returned; and no response ever carries the result "patch computation failed".
\<close>

theorem diff_failure_propagates:
  "(run_capabilities skip config req capabilities (initial req) = (Continue, s)
      \<and> compare (object req) (js s) = Inl e
    \<longrightarrow> fst (processor skip config capabilities req) = Inl e)
   \<and> (fst (processor skip config capabilities req) = Inr r
    \<longrightarrow> result r \<noteq> Some ''patch computation failed'')"
proof (intro conjI impI)
  assume "run_capabilities skip config req capabilities (initial req) = (Continue, s)
      \<and> compare (object req) (js s) = Inl e"
  then show "fst (processor skip config capabilities req) = Inl e"
    by (simp add: processor_def finish_def)
next
  assume r: "fst (processor skip config capabilities req) = Inr r"
  obtain f t where rc: "run_capabilities skip config req capabilities (initial req) = (f, t)"
    by (cases "run_capabilities skip config req capabilities (initial req)")
  define P :: "pstate \<Rightarrow> bool" where
    "P = (\<lambda>s. result (response s) \<noteq> Some ''patch computation failed'')"
  have step: "case f of Continue \<Rightarrow> P s' | _ \<Rightarrow> P s'"
    if "P s" and "run_action config req nm b s = (f, s')" for nm b s f s'
    using that
    by (cases f) (auto simp: P_def run_action_def Let_def add_log_def
        split: sum.splits option.splits prod.splits if_splits)
  have log: "P (add_log (Log LInfo m p) s)" if "P s" for s m p
    using that by (simp add: P_def add_log_def)
  have "P (initial req)"
    by (simp add: P_def initial_simps)
  from run_capabilities_rule[of P config req "\<lambda>f. P", OF step log this rc]
  have "P t"
    by (cases f) simp_all
  with r rc show "result r \<noteq> Some ''patch computation failed''"
    by (cases f) (auto simp: processor_def finish_def P_def split: sum.splits)
qed

theorem diff_failure_counterexample:
  "\<not> (case fst (processor (shouldSkipRequest (example_config False)) (example_config False)
        [\<lparr>name = ''c1'', namespaces = [], bindings = [when_pod_created [] make_cycle]\<rparr>]
        pod_request) of
        Inr r \<Rightarrow> \<not> allowed r \<and> result r = Some ''patch computation failed'' \<and> patch r = None
      | Inl e \<Rightarrow> False)"
  by code_simp

theorem diff_failure_propagates_witness:
  "fst (run_capabilities (shouldSkipRequest (example_config False)) (example_config False) pod_request
        [\<lparr>name = ''c1'', namespaces = [], bindings = [when_pod_created [] make_cycle]\<rparr>]
        (initial pod_request)) = Continue
   \<and> compare (object pod_request)
        (js (snd (run_capabilities (shouldSkipRequest (example_config False)) (example_config False) pod_request
        [\<lparr>name = ''c1'', namespaces = [], bindings = [when_pod_created [] make_cycle]\<rparr>]
        (initial pod_request)))) = Inl TypeError
   \<and> fst (processor (shouldSkipRequest (example_config False)) (example_config False)
        [\<lparr>name = ''c1'', namespaces = [], bindings = [when_pod_created [] make_cycle]\<rparr>]
        pod_request) = Inl TypeError"
proof -
  let ?rc = "run_capabilities (shouldSkipRequest (example_config False)) (example_config False) pod_request
        [\<lparr>name = ''c1'', namespaces = [], bindings = [when_pod_created [] make_cycle]\<rparr>]
        (initial pod_request)"
  have h1: "fst ?rc = Continue"
    by code_simp
  have h2: "compare (object pod_request) (js (snd ?rc)) = Inl TypeError"
    by code_simp
  from h1 have "?rc = (Continue, snd ?rc)"
    by (metis prod.collapse)
  with h2 diff_failure_propagates[of "shouldSkipRequest (example_config False)" "example_config False"
      pod_request _ "snd ?rc" TypeError]
  have "fst (processor (shouldSkipRequest (example_config False)) (example_config False)
        [\<lparr>name = ''c1'', namespaces = [], bindings = [when_pod_created [] make_cycle]\<rparr>]
        pod_request) = Inl TypeError"
    by blast
  with h1 h2 show ?thesis by simp
qed



section \<open>Skipped bindings\<close>

lemma run_bindings_drop_skipped:
  "skip b req \<Longrightarrow>
     run_bindings skip config req nm (bs1 @ b # bs2) s = run_bindings skip config req nm (bs1 @ bs2) s"
  by (induction bs1 arbitrary: s) (auto split: prod.splits flow.splits)

lemma run_capabilities_cong:
  assumes "name c' = name c"
    and "\<And>s. run_bindings skip config req (name c) (bindings c') s
             = run_bindings skip config req (name c) (bindings c) s"
  shows "run_capabilities skip config req (cs1 @ c' # cs2) s
           = run_capabilities skip config req (cs1 @ c # cs2) s"
  using assms by (induction cs1 arbitrary: s) (auto split: prod.splits flow.splits)

text \<open>
  C9 (amended). A binding the filter skips has no effect at all: the processor returns
  the response, and logs the lines, that it produces with the binding removed from
  its capability. (The key of the capability can still be stamped, by another binding
  of the same capability that is not skipped.)
\<close>

theorem skipped_binding_leaves_no_trace:
  assumes "skip b req"
  shows "processor skip config (cs1 @ c\<lparr>bindings := bs1 @ b # bs2\<rparr> # cs2) req
           = processor skip config (cs1 @ c\<lparr>bindings := bs1 @ bs2\<rparr> # cs2) req"
proof -
  have "run_capabilities skip config req (cs1 @ c\<lparr>bindings := bs1 @ b # bs2\<rparr> # cs2) (initial req)
          = run_capabilities skip config req (cs1 @ c\<lparr>bindings := bs1 @ bs2\<rparr> # cs2) (initial req)"
    using assms by (intro run_capabilities_cong) (simp_all add: run_bindings_drop_skipped)
  then show ?thesis
    by (simp add: processor_def)
qed

theorem skipped_binding_counterexample:
  "shouldSkipRequest (example_config False) (when_pod_created [''kube-system''] do_nothing) pod_request
   \<and> (case fst (processor (shouldSkipRequest (example_config False)) (example_config False)
        [\<lparr>name = ''c1'', namespaces = [],
          bindings = [when_pod_created [''kube-system''] do_nothing,
                      when_pod_created [] do_nothing]\<rparr>] pod_request) of
        Inr r \<Rightarrow>
          patch r = Some (stringify_patch
            [Add ''/metadata/annotations'' (JObj [(''pepr.dev/m/c1'', JStr ''succeeded'')])])
      | Inl e \<Rightarrow> False)"
  by code_simp

theorem skipped_binding_leaves_no_trace_witness:
  "shouldSkipRequest (example_config False) (when_pod_created [''kube-system''] do_nothing) pod_request
   \<and> processor (shouldSkipRequest (example_config False)) (example_config False)
        [\<lparr>name = ''c1'', namespaces = [],
          bindings = [when_pod_created [''kube-system''] do_nothing,
                      when_pod_created [] do_nothing]\<rparr>] pod_request
     = processor (shouldSkipRequest (example_config False)) (example_config False)
        [\<lparr>name = ''c1'', namespaces = [],
          bindings = [when_pod_created [] do_nothing]\<rparr>] pod_request"
proof -
  have h: "shouldSkipRequest (example_config False) (when_pod_created [''kube-system''] do_nothing)
             pod_request"
    by code_simp
  from skipped_binding_leaves_no_trace[where skip = "shouldSkipRequest (example_config False)"
      and b = "when_pod_created [''kube-system''] do_nothing" and req = pod_request
      and config = "example_config False" and ?cs1.0 = "[]" and ?cs2.0 = "[]" and ?bs1.0 = "[]"
      and ?bs2.0 = "[when_pod_created [] do_nothing]"
      and c = "\<lparr>name = ''c1'', namespaces = [], bindings = []\<rparr>", OF h] h
  show ?thesis by simp
qed

section \<open>The namespaces of a capability\<close>

text \<open>
  The processor reads the \<open>name\<close> and the \<open>bindings\<close> of a capability and nothing
  else: its \<open>namespaces\<close> have no influence on the outcome.
\<close>

lemma run_capabilities_namespaces:
  "run_capabilities skip config req (map (\<lambda>c. c\<lparr>namespaces := f c\<rparr>) cs) s
     = run_capabilities skip config req cs s"
  by (induction cs arbitrary: s) (auto split: prod.splits flow.splits)

lemma processor_ignores_namespaces:
  "processor skip config (map (\<lambda>c. c\<lparr>namespaces := f c\<rparr>) cs) req = processor skip config cs req"
  by (simp add: processor_def run_capabilities_namespaces)

text \<open>
  C2. The capability \<open>c1\<close> is restricted to the namespace \<open>kube-system\<close> and the
  request is for the namespace \<open>default\<close>; the processor runs the binding of \<open>c1\<close>
  all the same and stamps the annotation \<open>pepr.dev/m/c1\<close>.
\<close>

theorem capability_namespaces_not_consulted:
  "Log LInfo ''Processing matched action Pod'' ''u1 p1: c1''
     \<in> set (snd (processor (shouldSkipRequest (example_config False)) (example_config False)
        [\<lparr>name = ''c1'', namespaces = [''kube-system''],
          bindings = [when_pod_created [] do_nothing]\<rparr>] pod_request))
   \<and> fst (processor (shouldSkipRequest (example_config False)) (example_config False)
        [\<lparr>name = ''c1'', namespaces = [''kube-system''],
          bindings = [when_pod_created [] do_nothing]\<rparr>] pod_request) =
       Inr \<lparr>uid = ''u1'', patchType = ''JSONPatch'', warnings = [], allowed = True,
            result = None,
            patch = Some (stringify_patch
              [Add ''/metadata/annotations'' (JObj [(''pepr.dev/m/c1'', JStr ''succeeded'')])])\<rparr>"
  by code_simp

section \<open>The patch when nothing runs\<close>

lemma generate_same: "obj = mirror \<Longrightarrow> generate mirror obj path = []"
proof (induction mirror obj path rule: generate.induct)
  case (1 mirror obj path)
  then show ?case
    by (subst generate.simps) (auto simp: Let_def split: option.splits)
qed


lemma clone_extends:
  "clone j h = (v, h') \<Longrightarrow> \<exists>ext. h' = h @ ext"
  "clone_list xs h = (vs, h') \<Longrightarrow> \<exists>ext. h' = h @ ext"
  "clone_props ps h = (ws, h') \<Longrightarrow> \<exists>ext. h' = h @ ext"
proof (induction j h and xs h and ps h arbitrary: v h' and vs h' and ws h'
    rule: clone_clone_list_clone_props.induct)
  case (5 xs h)
  then show ?case by (fastforce split: prod.splits)
next
  case (6 ps h)
  then show ?case by (fastforce split: prod.splits)
next
  case (8 x xs h)
  then show ?case by (fastforce split: prod.splits)
next
  case (10 p ps h)
  then show ?case by (fastforce split: prod.splits)
qed auto

lemma those_map_Some: "those (map Some xs) = Some xs"
  by (induction xs) auto

lemma tree_of_clone:
  "clone j h = (v, h') \<Longrightarrow> \<forall>a \<in> set seen. a < length h \<or> length h' \<le> a \<Longrightarrow>
     tree_of seen (h' @ ext) v = Some j"
  "clone_list xs h = (vs, h') \<Longrightarrow> \<forall>a \<in> set seen. a < length h \<or> length h' \<le> a \<Longrightarrow>
     map (tree_of seen (h' @ ext)) vs = map Some xs"
  "clone_props ps h = (ws, h') \<Longrightarrow> \<forall>a \<in> set seen. a < length h \<or> length h' \<le> a \<Longrightarrow>
     map (\<lambda>p. map_option (Pair (fst p)) (tree_of seen (h' @ ext) (snd p))) ws = map Some ps"
proof (induction j h and xs h and ps h arbitrary: v h' seen ext and vs h' seen ext and ws h' seen ext
    rule: clone_clone_list_clone_props.induct)
  case (5 xs h)
  obtain vs h1 where c: "clone_list xs h = (vs, h1)"
    by (cases "clone_list xs h")
  with "5.prems" have v: "v = VRef (length h1)" and h': "h' = h1 @ [Cell (Some vs) []]"
    by auto
  from clone_extends(2)[OF c] have le: "length h \<le> length h1" by auto
  with "5.prems"(2) h' have fresh: "length h1 \<notin> set seen"
    by fastforce
  from "5.prems"(2) h' have "\<forall>a \<in> set (length h1 # seen). a < length h \<or> length h1 \<le> a"
    by fastforce
  from "5.IH"[OF c this, of "[Cell (Some vs) []] @ ext"]
  have "map (tree_of (length h1 # seen) (h' @ ext)) vs = map Some xs"
    by (simp add: h')
  with fresh show ?case
    by (simp add: v h' nth_append those_map_Some)
next
  case (6 ps h)
  obtain ws h1 where c: "clone_props ps h = (ws, h1)"
    by (cases "clone_props ps h")
  with "6.prems" have v: "v = VRef (length h1)" and h': "h' = h1 @ [Cell None ws]"
    by auto
  from clone_extends(3)[OF c] have le: "length h \<le> length h1" by auto
  with "6.prems"(2) h' have fresh: "length h1 \<notin> set seen"
    by fastforce
  from "6.prems"(2) h' have "\<forall>a \<in> set (length h1 # seen). a < length h \<or> length h1 \<le> a"
    by fastforce
  from "6.IH"[OF c this, of "[Cell None ws] @ ext"]
  have "map (\<lambda>p. map_option (Pair (fst p)) (tree_of (length h1 # seen) (h' @ ext) (snd p))) ws
          = map Some ps"
    by (simp add: h')
  with fresh show ?case
    by (simp add: v h' nth_append those_map_Some)
next
  case (8 x xs h)
  obtain v1 h1 where c1: "clone x h = (v1, h1)"
    by (cases "clone x h")
  obtain vs2 h2 where c2: "clone_list xs h1 = (vs2, h2)"
    by (cases "clone_list xs h1")
  from "8.prems" c1 c2 have vs: "vs = v1 # vs2" and h': "h' = h2"
    by auto
  from clone_extends(1)[OF c1] obtain e1 where e1: "h1 = h @ e1" by auto
  from clone_extends(2)[OF c2] obtain e2 where e2: "h2 = h1 @ e2" by auto
  from "8.prems"(2) e1 e2 h' have b1: "\<forall>a \<in> set seen. a < length h \<or> length h1 \<le> a"
    and b2: "\<forall>a \<in> set seen. a < length h1 \<or> length h2 \<le> a"
    by fastforce+
  from "8.IH"(1)[OF c1 b1, of "e2 @ ext"] have "tree_of seen (h2 @ ext) v1 = Some x"
    by (simp add: e2)
  moreover from "8.IH"(2)[OF c1[symmetric] c2 b2, of ext]
  have "map (tree_of seen (h2 @ ext)) vs2 = map Some xs" .
  ultimately show ?case
    by (simp add: vs h')
next
  case (10 p ps h)
  obtain v1 h1 where c1: "clone (snd p) h = (v1, h1)"
    by (cases "clone (snd p) h")
  obtain ws2 h2 where c2: "clone_props ps h1 = (ws2, h2)"
    by (cases "clone_props ps h1")
  from "10.prems" c1 c2 have ws: "ws = (fst p, v1) # ws2" and h': "h' = h2"
    by auto
  from clone_extends(1)[OF c1] obtain e1 where e1: "h1 = h @ e1" by auto
  from clone_extends(3)[OF c2] obtain e2 where e2: "h2 = h1 @ e2" by auto
  from "10.prems"(2) e1 e2 h' have b1: "\<forall>a \<in> set seen. a < length h \<or> length h1 \<le> a"
    and b2: "\<forall>a \<in> set seen. a < length h1 \<or> length h2 \<le> a"
    by fastforce+
  from "10.IH"(1)[OF c1 b1, of "e2 @ ext"] have "tree_of seen (h2 @ ext) v1 = Some (snd p)"
    by (simp add: e2)
  moreover from "10.IH"(2)[OF c1[symmetric] c2 b2, of ext]
  have "map (\<lambda>p. map_option (Pair (fst p)) (tree_of seen (h2 @ ext) (snd p))) ws2 = map Some ps" .
  ultimately show ?case
    by (simp add: ws h')
qed auto

lemma compare_clone: "compare (object req) (RequestWrapper req) = Inr []"
proof (cases "object req")
  case None
  then show ?thesis
    by (simp add: compare_def RequestWrapper_def)
next
  case (Some ps)
  obtain ws h1 where c: "clone_props ps [] = (ws, h1)"
    by (cases "clone_props ps []")
  then have cl: "clone (JObj ps) [] = (VRef (length h1), h1 @ [Cell None ws])"
    by simp
  from tree_of_clone(1)[OF cl, of "[]" "[]"]
  have "tree_of [] (h1 @ [Cell None ws]) (VRef (length h1)) = Some (JObj ps)"
    by simp
  with Some cl show ?thesis
    by (simp add: compare_def RequestWrapper_def generate_same del: clone.simps tree_of.simps)
qed

text \<open>When the filter skips every binding, the patch is the empty array, whatever the request.\<close>

lemma nothing_runs_empty_patch:
  assumes "\<forall>c \<in> set capabilities. \<forall>b \<in> set (bindings c). skip b req"
  shows "fst (processor skip config capabilities req) =
           Inr \<lparr>uid = req_uid req, patchType = ''JSONPatch'', warnings = [], allowed = True,
                result = None, patch = Some ''[]''\<rparr>"
proof -
  from assms run_capabilities_all_skipped[where cs = capabilities and skip = skip and req = req
      and config = config and s = "initial req"] obtain s where
    "run_capabilities skip config req capabilities (initial req) = (Continue, s)"
    "js s = js (initial req)" "response s = response (initial req)"
    by blast
  then show ?thesis
    by (simp add: processor_def finish_def initial_def compare_clone stringify_patch_def)
qed


section \<open>The patch when callbacks change nothing\<close>































section \<open>Failures that are permitted to continue\<close>

text \<open>
  C6. The callback replaces \<open>Raw.metadata\<close> by a new object and throws. The processor
  writes \<open>warning\<close> through the reference to the metadata object it read before the
  call, which is no longer part of the working copy: the patch of the response
  carries no annotation of the capability.
\<close>

theorem warning_stamp_lost:
  "fst (processor (shouldSkipRequest (example_config False)) (example_config False)
        [\<lparr>name = ''c1'', namespaces = [],
          bindings = [when_pod_created [] replace_metadata_then_throw]\<rparr>] pod_request) =
     Inr \<lparr>uid = ''u1'', patchType = ''JSONPatch'',
          warnings = [''Action failed: Error: boom''], allowed = True, result = None,
          patch = Some (stringify_patch [Remove ''/metadata/name''])\<rparr>"
  by code_simp

section \<open>The patch and the final document\<close>

text \<open>
  Decimal numerals, pointers and the keys of arrays; then the diff of a container as
  the operations of its keys, each a prefixed diff of a child; then the two loops on
  objects and on arrays; then the round trip by induction on the size of the mirror;
  then the text of the patch.
\<close>

lemma digit_char: "d < 10 \<Longrightarrow> (of_char (''0123456789'' ! d) :: nat) = 48 + d"
proof -
  assume "d < 10"
  then have "d \<in> {0, 1, 2, 3, 4, 5, 6, 7, 8, 9}"
    by auto
  then show ?thesis
    by auto
qed

lemma digit_in: "d < 10 \<Longrightarrow> ''0123456789'' ! d \<in> set ''0123456789''"
  by (rule nth_mem) simp

lemma nat_of_show_nat: "nat_of (show_nat n) = n"
proof (induction n rule: show_nat.induct)
  case (1 n)
  show ?case
  proof (cases "n < 10")
    case True
    then show ?thesis
      by (subst show_nat.simps) (simp add: nat_of_def digit_char)
  next
    case False
    with 1 have "nat_of (show_nat (n div 10)) = n div 10"
      by simp
    moreover have "n mod 10 < 10"
      by simp
    ultimately show ?thesis
      using False
      by (subst show_nat.simps) (simp add: nat_of_def digit_char)
  qed
qed

lemma show_nat_inj: "show_nat i = show_nat j \<Longrightarrow> i = j"
  by (metis nat_of_show_nat)

lemma show_nat_digits: "set (show_nat n) \<subseteq> set ''0123456789''"
proof (induction n rule: show_nat.induct)
  case (1 n)
  show ?case
  proof (cases "n < 10")
    case True
    then have "''0123456789'' ! n \<in> set ''0123456789''"
      by (rule digit_in)
    with True show ?thesis
      by (subst show_nat.simps) simp
  next
    case False
    have "''0123456789'' ! (n mod 10) \<in> set ''0123456789''"
      by (rule digit_in) simp
    with 1 False show ?thesis
      by (subst show_nat.simps) simp
  qed
qed


lemma show_nat_plain: "CHR ''/'' \<notin> set (show_nat n)" "CHR ''~'' \<notin> set (show_nat n)"
  "show_nat n \<noteq> ''length''" "show_nat n \<noteq> ''-''"
  using show_nat_digits[of n] by auto










lemma map_of_zip_show_nat:
  "map_of (zip (map show_nat [0..<length xs]) xs) (show_nat i)
     = (if i < length xs then Some (xs ! i) else None)"
proof (cases "i < length xs")
  case True
  have d: "distinct (map show_nat [0..<length xs])"
    by (auto simp: distinct_map intro!: inj_onI dest: show_nat_inj)
  have "map_of (zip (map show_nat [0..<length xs]) xs) (map show_nat [0..<length xs] ! i) = Some (xs ! i)"
    using True by (intro map_of_zip_nth) (simp_all add: d)
  with True show ?thesis by simp
next
  case False
  then have "show_nat i \<notin> set (map show_nat [0..<length xs])"
    by (auto dest: show_nat_inj)
  moreover have "fst ` set (zip (map show_nat [0..<length xs]) xs) = set (map show_nat [0..<length xs])"
    by (metis length_map length_upt map_fst_zip set_map diff_zero)
  ultimately have "map_of (zip (map show_nat [0..<length xs]) xs) (show_nat i) = None"
    by (simp only: map_of_eq_None_iff not_False_eq_True)
  with False show ?thesis by simp
qed






lemma prefix_op_Nil: "prefix_op [] op = op"
  by (cases op) simp_all

lemma own_size: "own m k = Some v \<Longrightarrow> size v < size m"
proof (cases m)
  case (JArr xs)
  assume own: "own m k = Some v"
  show ?thesis
  proof (cases "k = ''length''")
    case True
    with own JArr show ?thesis by auto
  next
    case False
    with own JArr have "(k, v) \<in> set (zip (map show_nat [0..<length xs]) xs)"
      by (auto dest: map_of_SomeD)
    then have "v \<in> set xs"
      by (rule set_zip_rightD)
    then have "size v \<le> size_list size xs"
      by (simp add: size_list_estimation')
    with JArr show ?thesis by simp
  qed
next
  case (JObj ps)
  assume "own m k = Some v"
  with JObj have "(k, v) \<in> set ps"
    by (auto dest: map_of_SomeD)
  then have "size_prod (\<lambda>_. 0) size (k, v) \<le> size_list (size_prod (\<lambda>_. 0) size) ps"
    by (rule size_list_estimation') simp
  with JObj show ?thesis by simp
qed auto





















lemma arr_deleted: "deleted (JArr xs) (JArr ys) = (length ys < length xs)"
proof -
  have "deleted (JArr xs) (JArr ys) = (\<exists>i < length xs. \<not> i < length ys)"
    by (auto simp: deleted_def list_ex_iff show_nat_plain map_of_zip_show_nat)
  also have "\<dots> = (length ys < length xs)"
    by (auto simp: not_less intro: exI[of _ "length ys"])
  finally show ?thesis .
qed





























text \<open>
  Outside the declared type of \<open>Raw\<close>: when a callback has put an array there, the diff
  emits a \<open>replace\<close> of the whole document and then an \<open>add\<close> for every element, and
  the patch yields each element twice.
\<close>

lemma array_raw_outside_round_trip:
  "(case fst (processor (shouldSkipRequest (example_config False)) (example_config False)
        [\<lparr>name = ''c1'', namespaces = [], bindings = [when_pod_created [] raw_becomes_array]\<rparr>]
        pod_request) of
      Inr r \<Rightarrow> allowed r
        \<and> patch r = Some (stringify_patch
            [Replace [] (JArr [JNum 1, JNum 5]), Add ''/0'' (JNum 1), Add ''/1'' (JNum 5)])
    | Inl e \<Rightarrow> False)
   \<and> document (js (snd (run_capabilities (shouldSkipRequest (example_config False)) (example_config False)
        pod_request
        [\<lparr>name = ''c1'', namespaces = [], bindings = [when_pod_created [] raw_becomes_array]\<rparr>]
        (initial pod_request)))) = Some (JArr [JNum 1, JNum 5])
   \<and> applyPatch [Replace [] (JArr [JNum 1, JNum 5]), Add ''/0'' (JNum 1), Add ''/1'' (JNum 5)]
        (JObj [(''metadata'', JObj [(''name'', JStr ''p1'')])])
       = Some (JArr [JNum 1, JNum 5, JNum 1, JNum 5])
   \<and> \<not> json_eq (JArr [JNum 1, JNum 5, JNum 1, JNum 5]) (JArr [JNum 1, JNum 5])"
  by code_simp



section \<open>Mutations of a failing callback\<close>








end
